theory Spec2Isabelle
  imports Main "HOL-Library.Word"
begin

section \<open>JavaScript values used by the Applications client\<close>

text \<open>
  A JavaScript string is a sequence of 16-bit code units. Literals of the source are
  written \<open>js ''...''\<close>.
\<close>

type_synonym js_string = "16 word list"

definition js :: "string \<Rightarrow> js_string" where
  "js s = map of_char s"

text \<open>
  The values the client's parameters range over: a string, an array of values, or the two
  absent values. Numbers, booleans, symbols and other objects are left out: the documented
  parameter types are \<open>string\<close> and \<open>string | Array.<string>\<close>.
\<close>

datatype js_value = Undefined | Null | Str js_string | Arr "js_value list"

text \<open>
  An object literal such as \<open>params\<close> is a finite map from property names to values;
  reading a property that is not there gives \<open>undefined\<close>. The default parameter
  \<open>params = {}\<close> replaces an omitted argument by the empty object. An argument that is
  no object (\<open>null\<close>, on which the destructuring throws \<open>TypeError\<close>) is outside the
  model.
\<close>

type_synonym js_object = "string \<rightharpoonup> js_value"

definition property :: "js_object \<Rightarrow> string \<Rightarrow> js_value" where
  "property obj k = (case obj k of None \<Rightarrow> Undefined | Some v \<Rightarrow> v)"

definition default_object :: "js_object option \<Rightarrow> js_object" where
  "default_object arg = (case arg of None \<Rightarrow> Map.empty | Some obj \<Rightarrow> obj)"

text \<open>The only exception the built-ins used here can throw.\<close>

datatype error = URIError

subsection \<open>\<open>Array.prototype.join\<close>, \<open>Array.prototype.concat\<close> and \<open>ToString\<close>\<close>

fun join_with :: "js_string \<Rightarrow> js_string list \<Rightarrow> js_string" where
  "join_with sep [] = []"
| "join_with sep [s] = s"
| "join_with sep (s # t # ts) = s @ sep @ join_with sep (t # ts)"

text \<open>
  \<open>ToString\<close> of an array is its \<open>join(",")\<close>; in a join, \<open>undefined\<close> and
  \<open>null\<close> elements contribute the empty string.
\<close>

fun ToString :: "js_value \<Rightarrow> js_string" where
  "ToString Undefined = js ''undefined''"
| "ToString Null = js ''null''"
| "ToString (Str s) = s"
| "ToString (Arr xs) =
     join_with (js '','')
       (map (\<lambda>x. case x of Undefined \<Rightarrow> [] | Null \<Rightarrow> [] | _ \<Rightarrow> ToString x) xs)"

definition element_string :: "js_value \<Rightarrow> js_string" where
  "element_string x = (case x of Undefined \<Rightarrow> [] | Null \<Rightarrow> [] | _ \<Rightarrow> ToString x)"

definition Array_join :: "js_value list \<Rightarrow> js_string \<Rightarrow> js_string" where
  "Array_join xs sep = join_with sep (map element_string xs)"

text \<open>\<open>xs.concat(v)\<close> appends the elements of \<open>v\<close> when it is an array, and \<open>v\<close> itself otherwise.\<close>

definition Array_concat :: "js_value list \<Rightarrow> js_value \<Rightarrow> js_value list" where
  "Array_concat xs v = xs @ (case v of Arr ys \<Rightarrow> ys | _ \<Rightarrow> [v])"

subsection \<open>\<open>encodeURIComponent\<close>\<close>

text \<open>
  The characters \<open>encodeURIComponent\<close> leaves alone: the ASCII letters and digits,
  the underscore, and \<open>- . ! ~ * ' ( )\<close> (the apostrophe is code unit 39).
\<close>

definition unescaped :: "16 word \<Rightarrow> bool" where
  "unescaped c \<longleftrightarrow>
     (0x41 \<le> c \<and> c \<le> 0x5A) \<or> (0x61 \<le> c \<and> c \<le> 0x7A) \<or> (0x30 \<le> c \<and> c \<le> 0x39)
     \<or> c \<in> set (js ''_-.!~*()'') \<or> c = 39"

definition is_leading :: "16 word \<Rightarrow> bool" where
  "is_leading c \<longleftrightarrow> 0xD800 \<le> c \<and> c \<le> 0xDBFF"

definition is_trailing :: "16 word \<Rightarrow> bool" where
  "is_trailing c \<longleftrightarrow> 0xDC00 \<le> c \<and> c \<le> 0xDFFF"

definition surrogate_pair_to_code_point :: "16 word \<Rightarrow> 16 word \<Rightarrow> nat" where
  "surrogate_pair_to_code_point lead trail =
     (unat lead - 0xD800) * 0x400 + (unat trail - 0xDC00) + 0x10000"

text \<open>The octets of the UTF-8 encoding of a code point.\<close>

definition utf8 :: "nat \<Rightarrow> nat list" where
  "utf8 cp =
     (if cp < 0x80 then [cp]
      else if cp < 0x800 then [0xC0 + cp div 0x40, 0x80 + cp mod 0x40]
      else if cp < 0x10000 then
        [0xE0 + cp div 0x1000, 0x80 + cp div 0x40 mod 0x40, 0x80 + cp mod 0x40]
      else
        [0xF0 + cp div 0x40000, 0x80 + cp div 0x1000 mod 0x40,
         0x80 + cp div 0x40 mod 0x40, 0x80 + cp mod 0x40])"

definition hex_digit :: "nat \<Rightarrow> 16 word" where
  "hex_digit n = js ''0123456789ABCDEF'' ! n"

text \<open>An octet becomes \<open>%\<close> and its two upper-case hexadecimal digits.\<close>

definition percent_octet :: "nat \<Rightarrow> js_string" where
  "percent_octet b = js ''%'' @ [hex_digit (b div 16), hex_digit (b mod 16)]"

definition percent_code_point :: "nat \<Rightarrow> js_string" where
  "percent_code_point cp = concat (map percent_octet (utf8 cp))"

definition then_append :: "js_string \<Rightarrow> error + js_string \<Rightarrow> error + js_string" where
  "then_append r rest = (case rest of Inl e \<Rightarrow> Inl e | Inr t \<Rightarrow> Inr (r @ t))"

text \<open>
  The loop of the abstract operation \<open>Encode\<close>, on the rest of the string from the
  current position: an unescaped code unit is copied; any other code unit starts a code point
  (one unit, or a leading and a trailing surrogate), whose UTF-8 octets are escaped; an
  unpaired surrogate throws \<open>URIError\<close>.
\<close>

fun Encode :: "js_string \<Rightarrow> error + js_string" where
  "Encode [] = Inr []"
| "Encode (c # cs) =
     (if unescaped c then then_append [c] (Encode cs)
      else if \<not> is_leading c \<and> \<not> is_trailing c then
        then_append (percent_code_point (unat c)) (Encode cs)
      else if is_trailing c then Inl URIError
      else
        (case cs of
           [] \<Rightarrow> Inl URIError
         | d # ds \<Rightarrow>
             if is_trailing d then
               then_append (percent_code_point (surrogate_pair_to_code_point c d)) (Encode ds)
             else Inl URIError))"

definition encodeURIComponent :: "js_value \<Rightarrow> error + js_string" where
  "encodeURIComponent v = Encode (ToString v)"

section \<open>The request library\<close>

text \<open>
  The module \<open>request-promise-native\<close> is a parameter of the model. Its
  \<open>defaults\<close> function takes the default options and returns a request function;
  calling that function with the options of one request acts on the world \<open>'w\<close>
  and returns a promise \<open>'p\<close>. The field \<open>method\<close> of the options object is
  named \<open>http_method\<close> here.
\<close>

record credentials =
  username :: js_value
  password :: js_value

record defaults =
  auth :: credentials
  json :: bool

record options =
  http_method :: js_string
  uri :: js_string
  qs :: "(string \<times> js_string) list option"

type_synonym ('w, 'p) request_function = "options \<Rightarrow> 'w \<Rightarrow> 'p \<times> 'w"

section \<open>The class \<open>ApplicationsAPI\<close>\<close>

text \<open>The fields \<open>_baseUrl\<close> and \<open>_request\<close> of an instance.\<close>

record ('w, 'p) ApplicationsAPI =
  priv_baseUrl :: js_value
  priv_request :: "('w, 'p) request_function"

definition constructor ::
  "(defaults \<Rightarrow> ('w, 'p) request_function) \<Rightarrow> js_object option \<Rightarrow> ('w, 'p) ApplicationsAPI" where
  "constructor rp_defaults params_arg =
     (let params = default_object params_arg;
          username = property params ''username'';
          password = property params ''password''
      in \<lparr>priv_baseUrl = property params ''baseUrl'',
          priv_request =
            rp_defaults \<lparr>auth = \<lparr>username = username, password = password\<rparr>, json = True\<rparr>\<rparr>)"

text \<open>
  A method runs on a state: the instance it is called on (\<open>self\<close>), the world the
  request function acts on, and a trace \<open>issued\<close> of the options objects handed to the
  request function so far. The trace is not in the source; it records the calls of
  \<open>this._request\<close>.
\<close>

record ('w, 'p) state =
  self :: "('w, 'p) ApplicationsAPI"
  issued :: "options list"
  world :: 'w

definition call_request :: "options \<Rightarrow> ('w, 'p) state \<Rightarrow> 'p \<times> ('w, 'p) state" where
  "call_request opts s =
     (case priv_request (self s) opts (world s) of
        (p, w') \<Rightarrow> (p, s\<lparr>issued := issued s @ [opts], world := w'\<rparr>))"

text \<open>
  A method either throws (\<open>Inl\<close>) before it reaches \<open>this._request\<close>, or returns
  the promise the request function returned (\<open>Inr\<close>).
\<close>

definition list :: "('w, 'p) state \<Rightarrow> (error + 'p) \<times> ('w, 'p) state" where
  "list s =
     apfst Inr
       (call_request
          \<lparr>http_method = js ''GET'',
           uri = ToString (priv_baseUrl (self s)) @ js ''/applications'',
           qs = None\<rparr> s)"

definition get :: "js_object option \<Rightarrow> ('w, 'p) state \<Rightarrow> (error + 'p) \<times> ('w, 'p) state" where
  "get params_arg s =
     (let params = default_object params_arg;
          applicationName = property params ''applicationName''
      in case encodeURIComponent applicationName of
           Inl e \<Rightarrow> (Inl e, s)
         | Inr app \<Rightarrow>
             apfst Inr
               (call_request
                  \<lparr>http_method = js ''GET'',
                   uri = ToString (priv_baseUrl (self s)) @ js ''/applications/'' @ app,
                   qs = None\<rparr> s))"

definition subscribe ::
  "js_object option \<Rightarrow> ('w, 'p) state \<Rightarrow> (error + 'p) \<times> ('w, 'p) state" where
  "subscribe params_arg s =
     (let params = default_object params_arg;
          eventSource = property params ''eventSource'';
          applicationName = property params ''applicationName''
      in case encodeURIComponent applicationName of
           Inl e \<Rightarrow> (Inl e, s)
         | Inr app \<Rightarrow>
             apfst Inr
               (call_request
                  \<lparr>http_method = js ''POST'',
                   uri = ToString (priv_baseUrl (self s)) @ js ''/applications/'' @ app
                           @ js ''/subscription'',
                   qs = Some [(''eventSource'',
                               Array_join (Array_concat [] eventSource) (js '',''))]\<rparr> s))"

definition unsubscribe ::
  "js_object option \<Rightarrow> ('w, 'p) state \<Rightarrow> (error + 'p) \<times> ('w, 'p) state" where
  "unsubscribe params_arg s =
     (let params = default_object params_arg;
          eventSource = property params ''eventSource'';
          applicationName = property params ''applicationName''
      in case encodeURIComponent applicationName of
           Inl e \<Rightarrow> (Inl e, s)
         | Inr app \<Rightarrow>
             apfst Inr
               (call_request
                  \<lparr>http_method = js ''DELETE'',
                   uri = ToString (priv_baseUrl (self s)) @ js ''/applications/'' @ app
                           @ js ''/subscription'',
                   qs = Some [(''eventSource'',
                               Array_join (Array_concat [] eventSource) (js '',''))]\<rparr> s))"

text \<open>The methods as one type of calls, to speak about every operation and about sequences of calls.\<close>

datatype call =
  List
  | Get "js_object option"
  | Subscribe "js_object option"
  | Unsubscribe "js_object option"

fun invoke :: "call \<Rightarrow> ('w, 'p) state \<Rightarrow> (error + 'p) \<times> ('w, 'p) state" where
  "invoke List s = list s"
| "invoke (Get params_arg) s = get params_arg s"
| "invoke (Subscribe params_arg) s = subscribe params_arg s"
| "invoke (Unsubscribe params_arg) s = unsubscribe params_arg s"

fun run_calls :: "call list \<Rightarrow> ('w, 'p) state \<Rightarrow> ('w, 'p) state" where
  "run_calls [] s = s"
| "run_calls (c # cs) s = run_calls cs (snd (invoke c s))"

text \<open>The requests a call hands to the request function: what it adds to the trace.\<close>

definition requests_of :: "call \<Rightarrow> ('w, 'p) state \<Rightarrow> options list" where
  "requests_of c s = drop (length (issued s)) (issued (snd (invoke c s)))"

section \<open>Vocabulary of the properties\<close>

text \<open>
  A string is well formed when it has no unpaired surrogate (what
  \<open>String.prototype.isWellFormed\<close> tests). These are the strings on which
  \<open>encodeURIComponent\<close> does not throw.
\<close>

fun well_formed :: "js_string \<Rightarrow> bool" where
  "well_formed [] = True"
| "well_formed (c # cs) =
     (if is_leading c then
        (case cs of [] \<Rightarrow> False | d # ds \<Rightarrow> is_trailing d \<and> well_formed ds)
      else if is_trailing c then False
      else well_formed cs)"

text \<open>
  The path segments of RFC 3986: a segment is a sequence of \<open>pchar\<close>, which is an
  unreserved character, a sub-delimiter, \<open>:\<close>, \<open>@\<close>, or an escape \<open>%\<close> followed by
  two hexadecimal digits. Every other character (a space, \<open>/\<close>, \<open>?\<close>, \<open>#\<close>, a bare
  \<open>%\<close>, ...) cannot stand in a segment as it is.
\<close>

definition pchar_literal :: "16 word \<Rightarrow> bool" where
  "pchar_literal c \<longleftrightarrow>
     (0x41 \<le> c \<and> c \<le> 0x5A) \<or> (0x61 \<le> c \<and> c \<le> 0x7A) \<or> (0x30 \<le> c \<and> c \<le> 0x39)
     \<or> c \<in> set (js ''-._~!$&()*+,;=:@'') \<or> c = 39"

definition is_hexdig :: "16 word \<Rightarrow> bool" where
  "is_hexdig c \<longleftrightarrow> (0x30 \<le> c \<and> c \<le> 0x39) \<or> (0x41 \<le> c \<and> c \<le> 0x46)"

fun path_segment :: "js_string \<Rightarrow> bool" where
  "path_segment [] = True"
| "path_segment (c # cs) =
     (if c = 0x25 then
        (case cs of
           [] \<Rightarrow> False
         | h # cs' \<Rightarrow>
             (case cs' of [] \<Rightarrow> False | l # rest \<Rightarrow> is_hexdig h \<and> is_hexdig l \<and> path_segment rest))
      else pchar_literal c \<and> path_segment cs)"

section \<open>A server behind the request library\<close>

record 'b response =
  statusCode :: nat
  body :: 'b

text \<open>How the promise of a request settles: resolved with the body, or rejected with an error
  that carries the status code and the body.\<close>

datatype 'b promise = Resolved 'b | Rejected nat 'b

text \<open>
  Modelled from the spec: the request function that \<open>defaults\<close> of
  \<open>request-promise-native\<close> returns, which is not part of the sources. The spec says of
  it: ``Non-2xx responses propagate as errors carrying the HTTP status code and body'', and a
  successful call gives the parsed response body. The server answers one request, sent with
  the default options bound at construction, with one response.
\<close>

definition rp_model ::
  "(defaults \<Rightarrow> options \<Rightarrow> 'w \<Rightarrow> 'b response \<times> 'w) \<Rightarrow> defaults \<Rightarrow> ('w, 'b promise) request_function" where
  "rp_model server d opts w =
     (case server d opts w of
        (resp, w') \<Rightarrow>
          (if 200 \<le> statusCode resp \<and> statusCode resp < 300 then Resolved (body resp)
           else Rejected (statusCode resp) (body resp), w'))"

section \<open>An example installation\<close>

text \<open>
  A server that knows no application called \<open>missing\<close> and counts the requests it has
  answered, and a client constructed for it, before its first call.
\<close>

definition example_server :: "defaults \<Rightarrow> options \<Rightarrow> nat \<Rightarrow> js_string response \<times> nat" where
  "example_server d opts n =
     (if uri opts = js ''http://pbx:8088/ari/applications/missing''
      then \<lparr>statusCode = 404, body = js ''Application not found''\<rparr>
      else \<lparr>statusCode = 200, body = js ''ok''\<rparr>, Suc n)"

definition example_state :: "(nat, js_string promise) state" where
  "example_state =
     \<lparr>self = constructor (rp_model example_server)
               (Some [''baseUrl'' \<mapsto> Str (js ''http://pbx:8088/ari''),
                      ''username'' \<mapsto> Str (js ''user''),
                      ''password'' \<mapsto> Str (js ''secret'')]),
      issued = [], world = 0\<rparr>"

section \<open>Properties of the built-ins\<close>

subsection \<open>When \<open>encodeURIComponent\<close> throws\<close>

lemma unescaped_not_surrogate: "unescaped c \<Longrightarrow> \<not> is_leading c \<and> \<not> is_trailing c"
  by (auto simp: unescaped_def is_leading_def is_trailing_def js_def word_le_nat_alt)

lemma leading_not_trailing: "is_leading c \<Longrightarrow> \<not> is_trailing c"
  by (auto simp: is_leading_def is_trailing_def word_le_nat_alt)

lemma then_append_Inr [simp]: "then_append r (Inr t) = Inr (r @ t)"
  by (simp add: then_append_def)

lemma then_append_Inl [simp]: "then_append r (Inl e) = Inl e"
  by (simp add: then_append_def)

lemma then_append_eq_Inr:
  "then_append p e = Inr r \<longleftrightarrow> (\<exists>t. e = Inr t \<and> r = p @ t)"
  by (cases e) (auto simp: then_append_def)

lemma Encode_well_formed: "well_formed s \<Longrightarrow> \<exists>r. Encode s = Inr r"
proof (induction s rule: Encode.induct)
  case 1
  show ?case by simp
next
  case (2 c cs)
  show ?case
  proof (cases "unescaped c")
    case True
    with 2 unescaped_not_surrogate [of c] show ?thesis by auto
  next
    case False
    note nu = False
    show ?thesis
    proof (cases "is_leading c")
      case False
      with 2 nu show ?thesis by (auto split: if_splits)
    next
      case True
      with 2 nu leading_not_trailing [of c] show ?thesis
        by (cases cs) auto
    qed
  qed
qed

lemma Encode_Inr_well_formed: "Encode s = Inr r \<Longrightarrow> well_formed s"
proof (induction s arbitrary: r rule: Encode.induct)
  case 1
  show ?case by simp
next
  case (2 c cs)
  show ?case
  proof (cases "unescaped c")
    case True
    with 2 unescaped_not_surrogate [of c] show ?thesis 
      by (auto simp: then_append_def split: sum.splits)
  next
    case False
    note nu = False
    show ?thesis
    proof (cases "is_leading c")
      case False
      with 2 nu show ?thesis by (auto simp: then_append_def split: if_splits sum.splits)
    next
      case True
      with 2 nu leading_not_trailing [of c] show ?thesis
        by (cases cs) (auto simp: then_append_def split: if_splits sum.splits)
    qed
  qed
qed

lemma Encode_ill_formed: "\<not> well_formed s \<Longrightarrow> Encode s = Inl URIError"
proof -
  assume "\<not> well_formed s"
  then have "\<And>r. Encode s \<noteq> Inr r"
    using Encode_Inr_well_formed by blast
  then obtain e where "Encode s = Inl e"
    by (cases "Encode s") auto
  then show ?thesis
    by (cases e) simp
qed

lemma encodeURIComponent_well_formed:
  "well_formed (ToString v) \<Longrightarrow> \<exists>app. encodeURIComponent v = Inr app"
  by (simp add: encodeURIComponent_def Encode_well_formed)

lemma Encode_undefined: "Encode (js ''undefined'') = Inr (js ''undefined'')"
  by (simp add: js_def unescaped_def)

lemma Array_join_strings: "Array_join (map Str xs) sep = join_with sep xs"
  by (simp add: Array_join_def element_string_def comp_def)

lemma Array_join_single_string: "Array_join [Str x] sep = x"
  by (simp add: Array_join_def element_string_def)

subsection \<open>The encoding is a path segment\<close>

lemma hex_digit_is_hexdig: "n < 16 \<Longrightarrow> is_hexdig (hex_digit n)"
proof -
  assume n: "n < 16"
  have digits: "list_all is_hexdig (js ''0123456789ABCDEF'')"
    by (simp add: js_def is_hexdig_def)
  have "length (js ''0123456789ABCDEF'') = 16"
    by (simp add: js_def)
  with n digits show ?thesis
    unfolding hex_digit_def list_all_length by simp
qed

lemma path_segment_percent_octet:
  "b < 256 \<Longrightarrow> path_segment (percent_octet b @ rest) = path_segment rest"
  by (simp add: percent_octet_def js_def hex_digit_is_hexdig)

lemma utf8_octets: "cp < 0x110000 \<Longrightarrow> \<forall>b \<in> set (utf8 cp). b < 256"
  by (auto simp: utf8_def)

lemma path_segment_octets:
  "\<forall>b \<in> set bs. b < 256 \<Longrightarrow>
   path_segment (concat (map percent_octet bs) @ rest) = path_segment rest"
  by (induction bs) (simp_all add: path_segment_percent_octet)

lemma path_segment_percent_code_point:
  "cp < 0x110000 \<Longrightarrow> path_segment (percent_code_point cp @ rest) = path_segment rest"
  by (simp add: percent_code_point_def path_segment_octets utf8_octets)

lemma unescaped_pchar: "unescaped c \<Longrightarrow> pchar_literal c \<and> c \<noteq> 0x25"
  by (auto simp: unescaped_def pchar_literal_def js_def)

lemma surrogate_pair_bound:
  "is_leading c \<Longrightarrow> is_trailing d \<Longrightarrow> surrogate_pair_to_code_point c d < 0x110000"
  by (simp add: is_leading_def is_trailing_def surrogate_pair_to_code_point_def word_le_nat_alt)
    arith

lemma unat_16_bound: "unat (c :: 16 word) < 0x110000"
  using unsigned_less [of c, where ?'a = nat] by simp

lemma path_segment_unescaped: "unescaped c \<Longrightarrow> path_segment (c # rest) = path_segment rest"
  using unescaped_pchar [of c] by simp

lemma Encode_path_segment: "Encode s = Inr r \<Longrightarrow> path_segment r"
proof (induction s arbitrary: r rule: Encode.induct)
  case 1
  then show ?case by simp
next
  case (2 c cs)
  show ?case
  proof (cases "unescaped c")
    case True
    with "2.prems" obtain t where t: "Encode cs = Inr t" "r = c # t"
      by (auto simp: then_append_eq_Inr)
    with "2.IH"(1) True have "path_segment t"
      by blast
    with t True show ?thesis
      by (simp only: path_segment_unescaped)
  next
    case False
    note nu = False
    show ?thesis
    proof (cases "\<not> is_leading c \<and> \<not> is_trailing c")
      case True
      with "2.prems" nu obtain t
        where t: "Encode cs = Inr t" "r = percent_code_point (unat c) @ t"
        by (auto simp: then_append_eq_Inr)
      with "2.IH"(2) nu True have "path_segment t"
        by blast
      with t show ?thesis
        by (simp only: path_segment_percent_code_point [OF unat_16_bound])
    next
      case False
      note sur = False
      from "2.prems" nu sur have nt: "\<not> is_trailing c"
        by (auto split: if_splits)
      with sur have lead: "is_leading c"
        by blast
      from "2.prems" nu sur nt obtain d ds where cs: "cs = d # ds"
        by (cases cs) auto
      from "2.prems" nu sur nt cs have td: "is_trailing d"
        by (auto split: if_splits)
      from "2.prems" nu sur nt cs td obtain t
        where t: "Encode ds = Inr t"
          "r = percent_code_point (surrogate_pair_to_code_point c d) @ t"
        by (auto simp: then_append_eq_Inr)
      with "2.IH"(3) nu sur nt cs td have "path_segment t"
        by blast
      with t show ?thesis
        by (simp only: path_segment_percent_code_point [OF surrogate_pair_bound [OF lead td]])
    qed
  qed
qed

lemma Encode_split:
  "Encode (xs @ c # ys) = Inr r \<Longrightarrow> \<not> is_leading c \<Longrightarrow> \<not> is_trailing c \<Longrightarrow>
   \<exists>a b. Encode xs = Inr a \<and> Encode ys = Inr b
     \<and> r = a @ (if unescaped c then [c] else percent_code_point (unat c)) @ b"
proof (induction xs arbitrary: r rule: Encode.induct)
  case 1
  then show ?case
    by (auto simp: then_append_eq_Inr)
next
  case (2 x xs)
  let ?mid = "if unescaped c then [c] else percent_code_point (unat c)"
  from "2.prems"(1) have enc: "Encode (x # (xs @ c # ys)) = Inr r"
    by simp
  show ?case
  proof (cases "unescaped x")
    case True
    with enc obtain t where t: "Encode (xs @ c # ys) = Inr t" "r = x # t"
      by (auto simp: then_append_eq_Inr)
    with "2.IH"(1) True "2.prems"(2,3)
    obtain a b where "Encode xs = Inr a" "Encode ys = Inr b" "t = a @ ?mid @ b"
      by blast
    with t True show ?thesis
      by simp
  next
    case False
    note nu = False
    show ?thesis
    proof (cases "\<not> is_leading x \<and> \<not> is_trailing x")
      case True
      with enc nu obtain t
        where t: "Encode (xs @ c # ys) = Inr t" "r = percent_code_point (unat x) @ t"
        by (auto simp: then_append_eq_Inr)
      with "2.IH"(2) nu True "2.prems"(2,3)
      obtain a b where "Encode xs = Inr a" "Encode ys = Inr b" "t = a @ ?mid @ b"
        by blast
      with t nu True show ?thesis
        by simp
    next
      case False
      note sur = False
      from enc nu sur have nt: "\<not> is_trailing x"
        by (auto split: if_splits)
      show ?thesis
      proof (cases xs)
        case Nil
        with enc nu sur nt "2.prems"(3) show ?thesis
          by simp
      next
        case (Cons d ds)
        with enc nu sur nt have td: "is_trailing d"
          by (auto split: if_splits)
        with enc nu sur nt Cons obtain t
          where t: "Encode (ds @ c # ys) = Inr t"
            "r = percent_code_point (surrogate_pair_to_code_point x d) @ t"
          by (auto simp: then_append_eq_Inr)
        with "2.IH"(3) nu sur nt Cons td "2.prems"(2,3)
        obtain a b where "Encode ds = Inr a" "Encode ys = Inr b" "t = a @ ?mid @ b"
          by blast
        with t nu sur nt Cons td show ?thesis
          by simp
      qed
    qed
  qed
qed

lemma Encode_split_escaped:
  assumes "well_formed (xs @ c # ys)" and "\<not> pchar_literal c"
    and "\<not> is_leading c \<and> \<not> is_trailing c"
  shows "\<exists>a b. Encode xs = Inr a \<and> Encode ys = Inr b
     \<and> Encode (xs @ c # ys) = Inr (a @ percent_code_point (unat c) @ b)
     \<and> path_segment (a @ percent_code_point (unat c) @ b)"
proof -
  from assms(1) obtain r where r: "Encode (xs @ c # ys) = Inr r"
    using Encode_well_formed by blast
  from assms(2) have nu: "\<not> unescaped c"
    using unescaped_pchar by blast
  from Encode_split [OF r] assms(3) nu
  obtain a b where ab: "Encode xs = Inr a" "Encode ys = Inr b"
    "r = a @ percent_code_point (unat c) @ b"
    by auto
  from r have "path_segment r"
    by (rule Encode_path_segment)
  with ab r show ?thesis
    by auto
qed

section \<open>Properties of the methods\<close>

lemma issued_call_request: "issued (snd (call_request r s)) = issued s @ [r]"
  by (simp add: call_request_def split: prod.splits)

lemma self_call_request: "self (snd (call_request r s)) = self s"
  by (simp add: call_request_def split: prod.splits)

lemma get_encoded:
  "encodeURIComponent (property (default_object pa) ''applicationName'') = Inr app \<Longrightarrow>
   get pa s =
     apfst Inr (call_request
       \<lparr>http_method = js ''GET'',
        uri = ToString (priv_baseUrl (self s)) @ js ''/applications/'' @ app,
        qs = None\<rparr> s)"
  by (simp add: get_def)

lemma subscribe_encoded:
  "encodeURIComponent (property (default_object pa) ''applicationName'') = Inr app \<Longrightarrow>
   subscribe pa s =
     apfst Inr (call_request
       \<lparr>http_method = js ''POST'',
        uri = ToString (priv_baseUrl (self s)) @ js ''/applications/'' @ app @ js ''/subscription'',
        qs = Some [(''eventSource'',
                    Array_join (Array_concat [] (property (default_object pa) ''eventSource''))
                      (js '',''))]\<rparr> s)"
  by (simp add: subscribe_def)

lemma unsubscribe_encoded:
  "encodeURIComponent (property (default_object pa) ''applicationName'') = Inr app \<Longrightarrow>
   unsubscribe pa s =
     apfst Inr (call_request
       \<lparr>http_method = js ''DELETE'',
        uri = ToString (priv_baseUrl (self s)) @ js ''/applications/'' @ app @ js ''/subscription'',
        qs = Some [(''eventSource'',
                    Array_join (Array_concat [] (property (default_object pa) ''eventSource''))
                      (js '',''))]\<rparr> s)"
  by (simp add: unsubscribe_def)

lemma get_throws:
  "encodeURIComponent (property (default_object pa) ''applicationName'') = Inl e \<Longrightarrow>
   get pa s = (Inl e, s)"
  by (simp add: get_def)

lemma subscribe_throws:
  "encodeURIComponent (property (default_object pa) ''applicationName'') = Inl e \<Longrightarrow>
   subscribe pa s = (Inl e, s)"
  by (simp add: subscribe_def)

lemma unsubscribe_throws:
  "encodeURIComponent (property (default_object pa) ''applicationName'') = Inl e \<Longrightarrow>
   unsubscribe pa s = (Inl e, s)"
  by (simp add: unsubscribe_def)

lemma self_invoke: "self (snd (invoke c s)) = self s"
proof (cases c)
  case List
  then show ?thesis by (simp add: list_def self_call_request)
next
  case (Get pa)
  then show ?thesis
    by (cases "encodeURIComponent (property (default_object pa) ''applicationName'')")
      (simp_all add: get_throws get_encoded self_call_request)
next
  case (Subscribe pa)
  then show ?thesis
    by (cases "encodeURIComponent (property (default_object pa) ''applicationName'')")
      (simp_all add: subscribe_throws subscribe_encoded self_call_request)
next
  case (Unsubscribe pa)
  then show ?thesis
    by (cases "encodeURIComponent (property (default_object pa) ''applicationName'')")
      (simp_all add: unsubscribe_throws unsubscribe_encoded self_call_request)
qed

lemma self_run_calls: "self (run_calls cs s) = self s"
  by (induction cs arbitrary: s) (simp_all add: self_invoke)

lemma requests_of_same_self:
  assumes "self s' = self s"
  shows "requests_of c s' = requests_of c s"
proof (cases c)
  case List
  with assms show ?thesis
    by (simp add: requests_of_def list_def issued_call_request)
next
  case (Get pa)
  with assms show ?thesis
    by (cases "encodeURIComponent (property (default_object pa) ''applicationName'')")
      (simp_all add: requests_of_def get_throws get_encoded issued_call_request)
next
  case (Subscribe pa)
  with assms show ?thesis
    by (cases "encodeURIComponent (property (default_object pa) ''applicationName'')")
      (simp_all add: requests_of_def subscribe_throws subscribe_encoded issued_call_request)
next
  case (Unsubscribe pa)
  with assms show ?thesis
    by (cases "encodeURIComponent (property (default_object pa) ''applicationName'')")
      (simp_all add: requests_of_def unsubscribe_throws unsubscribe_encoded issued_call_request)
qed

lemma issued_invoke: "issued (snd (invoke c s)) = issued s @ requests_of c s"
proof (cases c)
  case List
  then show ?thesis
    by (simp add: requests_of_def list_def issued_call_request)
next
  case (Get pa)
  then show ?thesis
    by (cases "encodeURIComponent (property (default_object pa) ''applicationName'')")
      (simp_all add: requests_of_def get_throws get_encoded issued_call_request)
next
  case (Subscribe pa)
  then show ?thesis
    by (cases "encodeURIComponent (property (default_object pa) ''applicationName'')")
      (simp_all add: requests_of_def subscribe_throws subscribe_encoded issued_call_request)
next
  case (Unsubscribe pa)
  then show ?thesis
    by (cases "encodeURIComponent (property (default_object pa) ''applicationName'')")
      (simp_all add: requests_of_def unsubscribe_throws unsubscribe_encoded issued_call_request)
qed

lemma requests_of_cases:
  "requests_of c s = [] \<and> (\<exists>e. invoke c s = (Inl e, s))
   \<or> (\<exists>r. requests_of c s = [r] \<and> invoke c s = apfst Inr (call_request r s))"
proof (cases c)
  case List
  then show ?thesis
    by (simp add: requests_of_def list_def issued_call_request)
next
  case (Get pa)
  then show ?thesis
    by (cases "encodeURIComponent (property (default_object pa) ''applicationName'')")
      (simp_all add: requests_of_def get_throws get_encoded issued_call_request)
next
  case (Subscribe pa)
  then show ?thesis
    by (cases "encodeURIComponent (property (default_object pa) ''applicationName'')")
      (simp_all add: requests_of_def subscribe_throws subscribe_encoded issued_call_request)
next
  case (Unsubscribe pa)
  then show ?thesis
    by (cases "encodeURIComponent (property (default_object pa) ''applicationName'')")
      (simp_all add: requests_of_def unsubscribe_throws unsubscribe_encoded issued_call_request)
qed

lemma requests_of_Get:
  "encodeURIComponent (property (default_object pa) ''applicationName'') = Inr app \<Longrightarrow>
   requests_of (Get pa) s =
     [\<lparr>http_method = js ''GET'',
       uri = ToString (priv_baseUrl (self s)) @ js ''/applications/'' @ app,
       qs = None\<rparr>]"
  by (simp add: requests_of_def get_encoded issued_call_request)

lemma requests_of_Subscribe:
  "encodeURIComponent (property (default_object pa) ''applicationName'') = Inr app \<Longrightarrow>
   requests_of (Subscribe pa) s =
     [\<lparr>http_method = js ''POST'',
       uri = ToString (priv_baseUrl (self s)) @ js ''/applications/'' @ app @ js ''/subscription'',
       qs = Some [(''eventSource'',
                   Array_join (Array_concat [] (property (default_object pa) ''eventSource''))
                     (js '',''))]\<rparr>]"
  by (simp add: requests_of_def subscribe_encoded issued_call_request)

lemma requests_of_Unsubscribe:
  "encodeURIComponent (property (default_object pa) ''applicationName'') = Inr app \<Longrightarrow>
   requests_of (Unsubscribe pa) s =
     [\<lparr>http_method = js ''DELETE'',
       uri = ToString (priv_baseUrl (self s)) @ js ''/applications/'' @ app @ js ''/subscription'',
       qs = Some [(''eventSource'',
                   Array_join (Array_concat [] (property (default_object pa) ''eventSource''))
                     (js '',''))]\<rparr>]"
  by (simp add: requests_of_def unsubscribe_encoded issued_call_request)

lemma requests_of_throws:
  "encodeURIComponent (property (default_object pa) ''applicationName'') = Inl e \<Longrightarrow>
   requests_of (Get pa) s = [] \<and> requests_of (Subscribe pa) s = []
   \<and> requests_of (Unsubscribe pa) s = []"
  by (simp add: requests_of_def get_throws subscribe_throws unsubscribe_throws)

subsection \<open>Facts about the example\<close>

lemma example_baseUrl: "ToString (priv_baseUrl (self example_state)) = js ''http://pbx:8088/ari''"
  by (simp add: example_state_def constructor_def default_object_def property_def)

lemma example_self: "self example_state =
   constructor (rp_model example_server)
               (Some [''baseUrl'' \<mapsto> Str (js ''http://pbx:8088/ari''),
                      ''username'' \<mapsto> Str (js ''user''),
                      ''password'' \<mapsto> Str (js ''secret'')])"
  by (simp add: example_state_def)

lemma encode_app1: "encodeURIComponent (Str (js ''app1'')) = Inr (js ''app1'')"
  by (simp add: encodeURIComponent_def js_def unescaped_def)

lemma well_formed_app1: "well_formed (js ''app1'')"
  by (simp add: js_def is_leading_def is_trailing_def)

lemma encode_missing: "encodeURIComponent (Str (js ''missing'')) = Inr (js ''missing'')"
  by (simp add: encodeURIComponent_def js_def unescaped_def)

section \<open>The properties of the specification\<close>

text \<open>
  C1. Whether \<open>eventSource\<close> is a single string or a sequence of strings,
  \<open>[].concat(eventSource)\<close> is the sequence of its strings, and \<open>subscribe\<close> and
  \<open>unsubscribe\<close> hand exactly one request to the request function, whose query object has
  the single parameter \<open>eventSource\<close>, the strings joined with commas. The application name
  is one that \<open>encodeURIComponent\<close> accepts. In the example, \<open>"PJSIP/6001"\<close> gives
  \<open>eventSource=PJSIP/6001\<close> and \<open>["ch1","ch2"]\<close> gives \<open>eventSource=ch1,ch2\<close>.
\<close>

theorem eventSource_joined_with_commas:
  assumes "well_formed (ToString (property params ''applicationName''))"
    and "es = Str x \<and> xs = [x] \<or> es = Arr (map Str xs)"
    and "params ''eventSource'' = Some es"
  shows "Array_concat [] es = map Str xs \<and>
    (\<exists>u. subscribe (Some params) s =
            apfst Inr (call_request
              \<lparr>http_method = js ''POST'', uri = u,
               qs = Some [(''eventSource'', join_with (js '','') xs)]\<rparr> s)
        \<and> unsubscribe (Some params) s =
            apfst Inr (call_request
              \<lparr>http_method = js ''DELETE'', uri = u,
               qs = Some [(''eventSource'', join_with (js '','') xs)]\<rparr> s))"
proof -
  from assms(1) obtain app where app: "encodeURIComponent (property params ''applicationName'') = Inr app"
    using Encode_well_formed by (auto simp: encodeURIComponent_def)
  from assms(2) have norm: "Array_concat [] es = map Str xs"
    by (auto simp: Array_concat_def)
  from assms(3) have es: "property params ''eventSource'' = es"
    by (simp add: property_def)
  show ?thesis
    unfolding subscribe_def unsubscribe_def
    by (simp add: default_object_def app es norm Array_join_strings) blast
qed

theorem eventSource_joined_with_commas_witness:
  "well_formed (ToString (property [''applicationName'' \<mapsto> Str (js ''app1''),
       ''eventSource'' \<mapsto> Str (js ''PJSIP/6001'')] ''applicationName''))
   \<and> (\<exists>u. subscribe (Some [''applicationName'' \<mapsto> Str (js ''app1''),
              ''eventSource'' \<mapsto> Str (js ''PJSIP/6001'')]) example_state =
            apfst Inr (call_request
              \<lparr>http_method = js ''POST'', uri = u,
               qs = Some [(''eventSource'', js ''PJSIP/6001'')]\<rparr> example_state))
   \<and> (\<exists>u. unsubscribe (Some [''applicationName'' \<mapsto> Str (js ''app1''),
              ''eventSource'' \<mapsto> Arr [Str (js ''ch1''), Str (js ''ch2'')]]) example_state =
            apfst Inr (call_request
              \<lparr>http_method = js ''DELETE'', uri = u,
               qs = Some [(''eventSource'', js ''ch1,ch2'')]\<rparr> example_state))"
proof -
  let ?p = "[''applicationName'' \<mapsto> Str (js ''app1''), ''eventSource'' \<mapsto> Str (js ''PJSIP/6001'')]"
  let ?q = "[''applicationName'' \<mapsto> Str (js ''app1''),
             ''eventSource'' \<mapsto> Arr [Str (js ''ch1''), Str (js ''ch2'')]]"
  have wfp: "well_formed (ToString (property ?p ''applicationName''))"
    by (simp add: property_def js_def is_leading_def is_trailing_def)
  have wfq: "well_formed (ToString (property ?q ''applicationName''))"
    by (simp add: property_def js_def is_leading_def is_trailing_def)
  have one: "Str (js ''PJSIP/6001'') = Str (js ''PJSIP/6001'') \<and> [js ''PJSIP/6001''] = [js ''PJSIP/6001'']
      \<or> Str (js ''PJSIP/6001'') = Arr (map Str [js ''PJSIP/6001''])"
    by simp
  have two: "Arr [Str (js ''ch1''), Str (js ''ch2'')] = Str x \<and> [js ''ch1'', js ''ch2''] = [x]
      \<or> Arr [Str (js ''ch1''), Str (js ''ch2'')] = Arr (map Str [js ''ch1'', js ''ch2''])" for x
    by simp
  have lp: "?p ''eventSource'' = Some (Str (js ''PJSIP/6001''))"
    by simp
  have lq: "?q ''eventSource'' = Some (Arr [Str (js ''ch1''), Str (js ''ch2'')])"
    by simp
  have j1: "join_with (js '','') [js ''PJSIP/6001''] = js ''PJSIP/6001''"
    by simp
  have j2: "join_with (js '','') [js ''ch1'', js ''ch2''] = js ''ch1,ch2''"
    by (simp add: js_def)
  from eventSource_joined_with_commas [OF wfp one lp, of example_state]
    eventSource_joined_with_commas [OF wfq two lq, of example_state]
  show ?thesis
    unfolding j1 j2 using wfp by blast
qed

text \<open>
  C2. The four operations hand to the request function exactly the method and path of the
  interface table: \<open>list\<close> a GET of \<open>{baseUrl}/applications\<close> without a query object;
  \<open>get\<close> a GET of \<open>{baseUrl}/applications/{encoded-name}\<close>; \<open>subscribe\<close> a POST and
  \<open>unsubscribe\<close> a DELETE of \<open>{baseUrl}/applications/{encoded-name}/subscription\<close> with the
  query parameter \<open>eventSource\<close>. The encoded name is the result of
  \<open>encodeURIComponent\<close>, which exists for every well-formed name.
\<close>

theorem method_and_path_of_each_operation:
  assumes "well_formed (ToString (property (default_object pa) ''applicationName''))"
  shows "\<exists>app. encodeURIComponent (property (default_object pa) ''applicationName'') = Inr app
    \<and> list s =
        apfst Inr (call_request
          \<lparr>http_method = js ''GET'',
           uri = ToString (priv_baseUrl (self s)) @ js ''/applications'',
           qs = None\<rparr> s)
    \<and> get pa s =
        apfst Inr (call_request
          \<lparr>http_method = js ''GET'',
           uri = ToString (priv_baseUrl (self s)) @ js ''/applications/'' @ app,
           qs = None\<rparr> s)
    \<and> subscribe pa s =
        apfst Inr (call_request
          \<lparr>http_method = js ''POST'',
           uri = ToString (priv_baseUrl (self s)) @ js ''/applications/'' @ app
                   @ js ''/subscription'',
           qs = Some [(''eventSource'',
                       Array_join (Array_concat [] (property (default_object pa) ''eventSource''))
                         (js '',''))]\<rparr> s)
    \<and> unsubscribe pa s =
        apfst Inr (call_request
          \<lparr>http_method = js ''DELETE'',
           uri = ToString (priv_baseUrl (self s)) @ js ''/applications/'' @ app
                   @ js ''/subscription'',
           qs = Some [(''eventSource'',
                       Array_join (Array_concat [] (property (default_object pa) ''eventSource''))
                         (js '',''))]\<rparr> s)"
proof -
  from assms obtain app
    where app: "encodeURIComponent (property (default_object pa) ''applicationName'') = Inr app"
    using encodeURIComponent_well_formed by blast
  have "list s =
        apfst Inr (call_request
          \<lparr>http_method = js ''GET'',
           uri = ToString (priv_baseUrl (self s)) @ js ''/applications'',
           qs = None\<rparr> s)"
    by (simp add: list_def)
  with app get_encoded [OF app, of s] subscribe_encoded [OF app, of s]
    unsubscribe_encoded [OF app, of s]
  show ?thesis by blast
qed

theorem method_and_path_of_each_operation_witness:
  "well_formed (ToString (property (default_object
      (Some [''applicationName'' \<mapsto> Str (js ''app1''), ''eventSource'' \<mapsto> Str (js ''bridge1'')]))
      ''applicationName''))
   \<and> list example_state =
        apfst Inr (call_request
          \<lparr>http_method = js ''GET'', uri = js ''http://pbx:8088/ari/applications'',
           qs = None\<rparr> example_state)
   \<and> get (Some [''applicationName'' \<mapsto> Str (js ''app1''), ''eventSource'' \<mapsto> Str (js ''bridge1'')])
        example_state =
        apfst Inr (call_request
          \<lparr>http_method = js ''GET'', uri = js ''http://pbx:8088/ari/applications/app1'',
           qs = None\<rparr> example_state)
   \<and> subscribe (Some [''applicationName'' \<mapsto> Str (js ''app1''), ''eventSource'' \<mapsto> Str (js ''bridge1'')])
        example_state =
        apfst Inr (call_request
          \<lparr>http_method = js ''POST'',
           uri = js ''http://pbx:8088/ari/applications/app1/subscription'',
           qs = Some [(''eventSource'', js ''bridge1'')]\<rparr> example_state)
   \<and> unsubscribe (Some [''applicationName'' \<mapsto> Str (js ''app1''), ''eventSource'' \<mapsto> Str (js ''bridge1'')])
        example_state =
        apfst Inr (call_request
          \<lparr>http_method = js ''DELETE'',
           uri = js ''http://pbx:8088/ari/applications/app1/subscription'',
           qs = Some [(''eventSource'', js ''bridge1'')]\<rparr> example_state)"
proof -
  let ?pa = "Some [''applicationName'' \<mapsto> Str (js ''app1''), ''eventSource'' \<mapsto> Str (js ''bridge1'')]"
  have name: "property (default_object ?pa) ''applicationName'' = Str (js ''app1'')"
    by (simp add: default_object_def property_def)
  have es: "Array_join (Array_concat [] (property (default_object ?pa) ''eventSource'')) (js '','')
      = js ''bridge1''"
    by (simp add: default_object_def property_def Array_concat_def Array_join_single_string)
  have wf: "well_formed (ToString (property (default_object ?pa) ''applicationName''))"
    by (simp add: name well_formed_app1)
  have u1: "js ''http://pbx:8088/ari'' @ js ''/applications'' = js ''http://pbx:8088/ari/applications''"
    and u2: "js ''http://pbx:8088/ari'' @ js ''/applications/'' @ js ''app1''
      = js ''http://pbx:8088/ari/applications/app1''"
    and u3: "js ''http://pbx:8088/ari'' @ js ''/applications/'' @ js ''app1'' @ js ''/subscription''
      = js ''http://pbx:8088/ari/applications/app1/subscription''"
    by (simp_all add: js_def)
  from method_and_path_of_each_operation [OF wf, of example_state]
  show ?thesis
    using wf by (auto simp: name encode_app1 es example_baseUrl u1 u2 u3)
qed

text \<open>
  C3. For every well-formed application name, \<open>get\<close> hands exactly one request to the
  request function: a GET whose uri is the base url, \<open>/applications/\<close> and the
  percent-encoding of the name, with no query object. The trace of requests grows by this one
  request.
\<close>

theorem get_issues_one_GET:
  assumes "params ''applicationName'' = Some (Str name)"
    and "well_formed name"
  shows "\<exists>app. Encode name = Inr app
      \<and> get (Some params) s =
          apfst Inr (call_request
            \<lparr>http_method = js ''GET'',
             uri = ToString (priv_baseUrl (self s)) @ js ''/applications/'' @ app,
             qs = None\<rparr> s)
      \<and> issued (snd (get (Some params) s)) = issued s @
            [\<lparr>http_method = js ''GET'',
              uri = ToString (priv_baseUrl (self s)) @ js ''/applications/'' @ app,
              qs = None\<rparr>]"
proof -
  from assms(2) obtain app where app: "Encode name = Inr app"
    using Encode_well_formed by blast
  from assms(1) have "property params ''applicationName'' = Str name"
    by (simp add: property_def)
  with app have "get (Some params) s =
          apfst Inr (call_request
            \<lparr>http_method = js ''GET'',
             uri = ToString (priv_baseUrl (self s)) @ js ''/applications/'' @ app,
             qs = None\<rparr> s)"
    by (simp add: get_def default_object_def encodeURIComponent_def)
  with app show ?thesis
    by (simp add: issued_call_request)
qed

theorem get_issues_one_GET_witness:
  "[''applicationName'' \<mapsto> Str (js ''my app'')] ''applicationName'' = Some (Str (js ''my app''))
   \<and> well_formed (js ''my app'')
   \<and> Encode (js ''my app'') = Inr (js ''my%20app'')
   \<and> issued (snd (get (Some [''applicationName'' \<mapsto> Str (js ''my app'')]) example_state)) =
        [\<lparr>http_method = js ''GET'', uri = js ''http://pbx:8088/ari/applications/my%20app'',
          qs = None\<rparr>]"
proof -
  have l: "[''applicationName'' \<mapsto> Str (js ''my app'')] ''applicationName'' = Some (Str (js ''my app''))"
    by simp
  have wf: "well_formed (js ''my app'')"
    by (simp add: js_def is_leading_def is_trailing_def)
  have enc: "Encode (js ''my app'') = Inr (js ''my%20app'')"
    by (simp add: js_def unescaped_def is_leading_def is_trailing_def percent_code_point_def
        utf8_def percent_octet_def hex_digit_def)
  have base: "ToString (priv_baseUrl (self example_state)) = js ''http://pbx:8088/ari''"
    by (simp add: example_state_def constructor_def default_object_def property_def)
  have tr: "issued example_state = []"
    by (simp add: example_state_def)
  from get_issues_one_GET [where params = "[''applicationName'' \<mapsto> Str (js ''my app'')]"
      and name = "js ''my app''" and s = example_state, OF l wf] enc
  have "issued (snd (get (Some [''applicationName'' \<mapsto> Str (js ''my app'')]) example_state)) =
        [\<lparr>http_method = js ''GET'', uri = js ''http://pbx:8088/ari'' @ js ''/applications/'' @ js ''my%20app'',
          qs = None\<rparr>]"
    by (auto simp: base tr)
  then show ?thesis
    using l wf enc by (simp add: js_def)
qed

text \<open>
  C4. A character that cannot stand in a path segment as it is (a space, \<open>/\<close>, \<open>?\<close>,
  \<open>#\<close>, \<open>%\<close>, ...: any code unit that is no \<open>pchar\<close> of RFC 3986, halves of
  surrogate pairs apart) never reaches the request path unencoded. Wherever such a character
  stands in the application name, \<open>get\<close>, \<open>subscribe\<close> and \<open>unsubscribe\<close> put in
  its place the escapes \<open>%XX\<close> of its UTF-8 octets, between the encodings of what is
  before and what is after it, and the whole encoded name is one valid path segment. On a
  name that is not well formed they hand over no request at all. In the example, the space of
  \<open>my app/1\<close> becomes \<open>%20\<close> and its slash \<open>%2F\<close>.
\<close>

theorem reserved_characters_percent_encoded:
  assumes "default_object pa ''applicationName'' = Some (Str (before @ c # after))"
    and "\<not> pchar_literal c"
    and "\<not> is_leading c \<and> \<not> is_trailing c"
  shows "if well_formed (before @ c # after)
    then \<exists>a b. Encode before = Inr a \<and> Encode after = Inr b
      \<and> path_segment (a @ percent_code_point (unat c) @ b)
      \<and> map uri (requests_of (Get pa) s) =
          [ToString (priv_baseUrl (self s)) @ js ''/applications/''
             @ a @ percent_code_point (unat c) @ b]
      \<and> map uri (requests_of (Subscribe pa) s) =
          [ToString (priv_baseUrl (self s)) @ js ''/applications/''
             @ (a @ percent_code_point (unat c) @ b) @ js ''/subscription'']
      \<and> map uri (requests_of (Unsubscribe pa) s) =
          [ToString (priv_baseUrl (self s)) @ js ''/applications/''
             @ (a @ percent_code_point (unat c) @ b) @ js ''/subscription'']
    else requests_of (Get pa) s = [] \<and> requests_of (Subscribe pa) s = []
      \<and> requests_of (Unsubscribe pa) s = []"
proof (cases "well_formed (before @ c # after)")
  case True
  from assms(1) have name: "property (default_object pa) ''applicationName''
      = Str (before @ c # after)"
    by (simp add: property_def)
  from Encode_split_escaped [OF True assms(2,3)]
  obtain a b where ab: "Encode before = Inr a" "Encode after = Inr b"
    "Encode (before @ c # after) = Inr (a @ percent_code_point (unat c) @ b)"
    "path_segment (a @ percent_code_point (unat c) @ b)"
    by blast
  from name ab(3) have app: "encodeURIComponent (property (default_object pa) ''applicationName'')
      = Inr (a @ percent_code_point (unat c) @ b)"
    by (simp add: encodeURIComponent_def)
  have "map uri (requests_of (Get pa) s) =
          [ToString (priv_baseUrl (self s)) @ js ''/applications/''
             @ a @ percent_code_point (unat c) @ b]"
    and "map uri (requests_of (Subscribe pa) s) =
          [ToString (priv_baseUrl (self s)) @ js ''/applications/''
             @ (a @ percent_code_point (unat c) @ b) @ js ''/subscription'']"
    and "map uri (requests_of (Unsubscribe pa) s) =
          [ToString (priv_baseUrl (self s)) @ js ''/applications/''
             @ (a @ percent_code_point (unat c) @ b) @ js ''/subscription'']"
    by (simp_all add: requests_of_Get [OF app] requests_of_Subscribe [OF app]
        requests_of_Unsubscribe [OF app])
  with ab(1,2,4) True show ?thesis
    by (simp only: if_True) blast
next
  case False
  from assms(1) have name: "property (default_object pa) ''applicationName''
      = Str (before @ c # after)"
    by (simp add: property_def)
  with False have "encodeURIComponent (property (default_object pa) ''applicationName'')
      = Inl URIError"
    by (simp add: encodeURIComponent_def Encode_ill_formed)
  from requests_of_throws [OF this, of s] False show ?thesis
    by (simp only: if_False)
qed

theorem reserved_characters_percent_encoded_witness:
  "default_object (Some [''applicationName'' \<mapsto> Str (js ''my'' @ 0x20 # js ''app/1'')])
      ''applicationName'' = Some (Str (js ''my'' @ 0x20 # js ''app/1''))
   \<and> default_object (Some [''applicationName'' \<mapsto> Str (js ''my app'' @ 0x2F # js ''1'')])
      ''applicationName'' = Some (Str (js ''my app'' @ 0x2F # js ''1''))
   \<and> js ''my'' @ 0x20 # js ''app/1'' = js ''my app/1''
   \<and> js ''my app'' @ 0x2F # js ''1'' = js ''my app/1''
   \<and> \<not> pchar_literal 0x20 \<and> \<not> is_leading 0x20 \<and> \<not> is_trailing 0x20
   \<and> \<not> pchar_literal 0x2F \<and> \<not> is_leading 0x2F \<and> \<not> is_trailing 0x2F
   \<and> well_formed (js ''my app/1'')
   \<and> percent_code_point (unat (0x20 :: 16 word)) = js ''%20''
   \<and> percent_code_point (unat (0x2F :: 16 word)) = js ''%2F''
   \<and> map uri (requests_of (Get (Some [''applicationName'' \<mapsto> Str (js ''my app/1'')]))
         example_state) = [js ''http://pbx:8088/ari/applications/my%20app%2F1'']
   \<and> map uri (requests_of (Unsubscribe (Some [''applicationName'' \<mapsto> Str (js ''my app/1'')]))
         example_state) = [js ''http://pbx:8088/ari/applications/my%20app%2F1/subscription'']
   \<and> path_segment (js ''my%20app%2F1'')"
proof -
  let ?n1 = "js ''my'' @ 0x20 # js ''app/1''"
  let ?n2 = "js ''my app'' @ 0x2F # js ''1''"
  have l1: "default_object (Some [''applicationName'' \<mapsto> Str ?n1]) ''applicationName''
      = Some (Str ?n1)"
    and l2: "default_object (Some [''applicationName'' \<mapsto> Str ?n2]) ''applicationName''
      = Some (Str ?n2)"
    by (simp_all add: default_object_def)
  have n1: "?n1 = js ''my app/1''" and n2: "?n2 = js ''my app/1''"
    by (simp_all add: js_def)
  have c1: "\<not> is_leading 0x20 \<and> \<not> is_trailing 0x20"
    and c2: "\<not> is_leading 0x2F \<and> \<not> is_trailing 0x2F"
    by (simp_all add: is_leading_def is_trailing_def)
  have p1: "\<not> pchar_literal 0x20" and p2: "\<not> pchar_literal 0x2F"
    by (simp_all add: pchar_literal_def js_def)
  have wf: "well_formed (js ''my app/1'')"
    by (simp add: js_def is_leading_def is_trailing_def)
  have o1: "percent_code_point (unat (0x20 :: 16 word)) = js ''%20''"
    and o2: "percent_code_point (unat (0x2F :: 16 word)) = js ''%2F''"
    and o3: "percent_code_point 32 = js ''%20''" and o4: "percent_code_point 47 = js ''%2F''"
    by (simp_all add: percent_code_point_def utf8_def percent_octet_def hex_digit_def js_def)
  have e1: "Encode (js ''my'') = Inr (js ''my'')" and e2: "Encode (js ''app/1'') = Inr (js ''app%2F1'')"
    and e3: "Encode (js ''my app'') = Inr (js ''my%20app'')" and e4: "Encode (js ''1'') = Inr (js ''1'')"
    by (simp_all add: js_def unescaped_def is_leading_def is_trailing_def percent_code_point_def
        utf8_def percent_octet_def hex_digit_def)
  have u3: "js ''my'' @ js ''%20'' @ js ''app%2F1'' = js ''my%20app%2F1''"
    by (simp add: js_def)
  from reserved_characters_percent_encoded [OF l1 p1 c1, of example_state]
  have r1: "map uri (requests_of (Get (Some [''applicationName'' \<mapsto> Str (js ''my app/1'')]))
         example_state) = [js ''http://pbx:8088/ari/applications/my%20app%2F1'']
      \<and> path_segment (js ''my%20app%2F1'')"
    unfolding n1 if_P [OF wf] by (auto simp: e1 e2 o3 example_baseUrl u3) (simp add: js_def)
  from reserved_characters_percent_encoded [OF l2 p2 c2, of example_state]
  have r2: "map uri (requests_of (Unsubscribe (Some [''applicationName'' \<mapsto> Str (js ''my app/1'')]))
         example_state) = [js ''http://pbx:8088/ari/applications/my%20app%2F1/subscription'']"
    unfolding n2 if_P [OF wf] by (auto simp: e3 e4 o4 example_baseUrl) (simp add: js_def)
  from l1 l2 n1 n2 c1 c2 p1 p2 wf o1 o2 r1 r2 show ?thesis
    by blast
qed

text \<open>
  C5. For every argument, \<open>subscribe\<close> and \<open>unsubscribe\<close> build the same request but for
  the method: on a well-formed application name both hand one request to the request
  function, with the same uri and the same query object, POST for the one and DELETE for the
  other; on any other name both throw \<open>URIError\<close> and hand over nothing.
\<close>

theorem subscribe_unsubscribe_differ_in_method_only:
  "(if well_formed (ToString (property (default_object pa) ''applicationName''))
    then \<exists>u q. subscribe pa s =
               apfst Inr (call_request \<lparr>http_method = js ''POST'', uri = u, qs = q\<rparr> s)
           \<and> unsubscribe pa s =
               apfst Inr (call_request \<lparr>http_method = js ''DELETE'', uri = u, qs = q\<rparr> s)
    else subscribe pa s = (Inl URIError, s) \<and> unsubscribe pa s = (Inl URIError, s))
   \<and> js ''POST'' \<noteq> js ''DELETE''"
proof -
  have m: "js ''POST'' \<noteq> js ''DELETE''"
    by (simp add: js_def)
  show ?thesis
  proof (cases "well_formed (ToString (property (default_object pa) ''applicationName''))")
    case False
    then have "encodeURIComponent (property (default_object pa) ''applicationName'') = Inl URIError"
      by (simp add: encodeURIComponent_def Encode_ill_formed)
    with m False show ?thesis
      by (simp add: subscribe_throws unsubscribe_throws)
  next
    case True
    then obtain app
      where app: "encodeURIComponent (property (default_object pa) ''applicationName'') = Inr app"
      using encodeURIComponent_well_formed by blast
    from m True subscribe_encoded [OF app, of s] unsubscribe_encoded [OF app, of s]
    show ?thesis by auto
  qed
qed

theorem subscribe_unsubscribe_differ_in_method_only_witness:
  "\<exists>u q. subscribe (Some [''applicationName'' \<mapsto> Str (js ''app1''),
                    ''eventSource'' \<mapsto> Arr [Str (js ''dev1''), Str (js ''dev2'')]]) example_state =
             apfst Inr (call_request \<lparr>http_method = js ''POST'', uri = u, qs = q\<rparr> example_state)
       \<and> unsubscribe (Some [''applicationName'' \<mapsto> Str (js ''app1''),
                    ''eventSource'' \<mapsto> Arr [Str (js ''dev1''), Str (js ''dev2'')]]) example_state =
             apfst Inr (call_request \<lparr>http_method = js ''DELETE'', uri = u, qs = q\<rparr> example_state)"
proof -
  let ?pa = "Some [''applicationName'' \<mapsto> Str (js ''app1''),
                    ''eventSource'' \<mapsto> Arr [Str (js ''dev1''), Str (js ''dev2'')]]"
  have wf: "well_formed (ToString (property (default_object ?pa) ''applicationName''))"
    by (simp add: default_object_def property_def well_formed_app1)
  from subscribe_unsubscribe_differ_in_method_only [of ?pa example_state]
  show ?thesis
    unfolding if_P [OF wf] by blast
qed

text \<open>
  C6. Let the client be constructed over the request library as the spec describes it, in
  front of any server. If a request that an operation hands over is answered with a status
  outside 200..299, the operation returns the promise rejected with that status and that
  body, the trace holds exactly this one request more (no retry), and the world is as the
  server left it after this one request. In the example, \<open>get\<close> of the application
  \<open>missing\<close> is rejected with status 404.
\<close>

theorem non_2xx_rejection_passed_through:
  assumes "self s = constructor (rp_model server) cfg"
    and "r \<in> set (requests_of c s)"
    and "server \<lparr>auth = \<lparr>username = property (default_object cfg) ''username'',
                          password = property (default_object cfg) ''password''\<rparr>,
                 json = True\<rparr> r (world s) = (resp, w')"
    and "\<not> (200 \<le> statusCode resp \<and> statusCode resp < 300)"
  shows "invoke c s =
     (Inr (Rejected (statusCode resp) (body resp)), s\<lparr>issued := issued s @ [r], world := w'\<rparr>)"
proof -
  from assms(2) requests_of_cases [of c s]
  have inv: "invoke c s = apfst Inr (call_request r s)"
    by auto
  from assms(1) have "priv_request (self s) =
      rp_model server \<lparr>auth = \<lparr>username = property (default_object cfg) ''username'',
                          password = property (default_object cfg) ''password''\<rparr>,
                 json = True\<rparr>"
    by (simp add: constructor_def Let_def)
  with assms(3,4) have "call_request r s =
      (Rejected (statusCode resp) (body resp), s\<lparr>issued := issued s @ [r], world := w'\<rparr>)"
    by (simp add: call_request_def rp_model_def)
  with inv show ?thesis
    by simp
qed

theorem non_2xx_rejection_passed_through_witness:
  "\<lparr>http_method = js ''GET'', uri = js ''http://pbx:8088/ari/applications/missing'', qs = None\<rparr>
     \<in> set (requests_of (Get (Some [''applicationName'' \<mapsto> Str (js ''missing'')])) example_state)
   \<and> \<not> (200 \<le> (404::nat) \<and> (404::nat) < 300)
   \<and> invoke (Get (Some [''applicationName'' \<mapsto> Str (js ''missing'')])) example_state =
      (Inr (Rejected 404 (js ''Application not found'')),
       example_state\<lparr>issued :=
         [\<lparr>http_method = js ''GET'', uri = js ''http://pbx:8088/ari/applications/missing'',
           qs = None\<rparr>],
         world := 1\<rparr>)"
proof -
  let ?c = "Get (Some [''applicationName'' \<mapsto> Str (js ''missing'')])"
  let ?r = "\<lparr>http_method = js ''GET'', uri = js ''http://pbx:8088/ari/applications/missing'',
             qs = None\<rparr>"
  let ?resp = "\<lparr>statusCode = 404, body = js ''Application not found''\<rparr>"
  have u: "js ''http://pbx:8088/ari'' @ js ''/applications/'' @ js ''missing''
      = js ''http://pbx:8088/ari/applications/missing''"
    by (simp add: js_def)
  have name: "encodeURIComponent (property (default_object
      (Some [''applicationName'' \<mapsto> Str (js ''missing'')])) ''applicationName'') = Inr (js ''missing'')"
    by (simp add: default_object_def property_def encode_missing)
  have req: "?r \<in> set (requests_of ?c example_state)"
    by (simp add: requests_of_def get_encoded [OF name] issued_call_request example_baseUrl u)
  have srv: "example_server
      \<lparr>auth = \<lparr>username = property (default_object
                   (Some [''baseUrl'' \<mapsto> Str (js ''http://pbx:8088/ari''),
                          ''username'' \<mapsto> Str (js ''user''),
                          ''password'' \<mapsto> Str (js ''secret'')])) ''username'',
               password = property (default_object
                   (Some [''baseUrl'' \<mapsto> Str (js ''http://pbx:8088/ari''),
                          ''username'' \<mapsto> Str (js ''user''),
                          ''password'' \<mapsto> Str (js ''secret'')])) ''password''\<rparr>,
        json = True\<rparr> ?r (world example_state) = (?resp, 1)"
    by (simp add: example_server_def example_state_def)
  have st: "\<not> (200 \<le> statusCode ?resp \<and> statusCode ?resp < 300)"
    by simp
  have tr: "issued example_state = []"
    by (simp add: example_state_def)
  from non_2xx_rejection_passed_through [OF example_self req srv st] req
  show ?thesis
    by (simp add: tr)
qed

text \<open>
  C7. No operation changes the instance: after one call, and after any sequence of calls, the
  fields of the client are what they were, so a call hands the same requests to the request
  function after any earlier calls as it does before them. For a client fresh from the
  constructor, the base url and the request function bound to the user name and password are
  still those of the construction.
\<close>

theorem configuration_never_mutated:
  "self (snd (invoke c s)) = self s
   \<and> self (run_calls cs s) = self s
   \<and> issued (snd (invoke c s)) = issued s @ requests_of c s
   \<and> issued (snd (invoke c (run_calls cs s))) = issued (run_calls cs s) @ requests_of c s
   \<and> priv_baseUrl (self (run_calls cs \<lparr>self = constructor rp cfg, issued = [], world = w\<rparr>))
       = property (default_object cfg) ''baseUrl''
   \<and> priv_request (self (run_calls cs \<lparr>self = constructor rp cfg, issued = [], world = w\<rparr>))
       = rp \<lparr>auth = \<lparr>username = property (default_object cfg) ''username'',
                        password = property (default_object cfg) ''password''\<rparr>,
             json = True\<rparr>"
  using requests_of_same_self [where s' = "run_calls cs s" and s = s and c = c, OF self_run_calls]
  by (simp add: self_invoke self_run_calls issued_invoke constructor_def Let_def)

theorem configuration_never_mutated_witness:
  "self (run_calls [List, Subscribe (Some [''applicationName'' \<mapsto> Str (js ''app1'')])]
      example_state) = self example_state
   \<and> issued (snd (invoke (Get (Some [''applicationName'' \<mapsto> Str (js ''app1'')]))
        (run_calls [List, Subscribe (Some [''applicationName'' \<mapsto> Str (js ''app1'')])]
           example_state))) =
       issued (run_calls [List, Subscribe (Some [''applicationName'' \<mapsto> Str (js ''app1'')])]
          example_state)
       @ [\<lparr>http_method = js ''GET'', uri = js ''http://pbx:8088/ari/applications/app1'',
           qs = None\<rparr>]"
proof -
  let ?pa = "Some [''applicationName'' \<mapsto> Str (js ''app1'')]"
  have name: "encodeURIComponent (property (default_object ?pa) ''applicationName'')
      = Inr (js ''app1'')"
    by (simp add: default_object_def property_def encode_app1)
  have u: "js ''http://pbx:8088/ari'' @ js ''/applications/'' @ js ''app1''
      = js ''http://pbx:8088/ari/applications/app1''"
    by (simp add: js_def)
  have req: "requests_of (Get ?pa) example_state =
      [\<lparr>http_method = js ''GET'', uri = js ''http://pbx:8088/ari/applications/app1'',
        qs = None\<rparr>]"
    by (simp add: requests_of_Get [OF name] example_baseUrl u)
  from configuration_never_mutated
    [of "Get ?pa" example_state "[List, Subscribe ?pa]" "rp_model example_server" None "0::nat"]
  show ?thesis
    unfolding req by blast
qed

text \<open>
  C8. When \<open>applicationName\<close> is absent (the argument omitted, or the property missing),
  \<open>get\<close>, \<open>subscribe\<close> and \<open>unsubscribe\<close> do not throw and validate nothing: they hand
  a request to the request function whose path segment for the name is the string
  \<open>undefined\<close>.
\<close>

theorem absent_applicationName_sent_as_undefined:
  assumes "default_object pa ''applicationName'' = None"
  shows "get pa s =
        apfst Inr (call_request
          \<lparr>http_method = js ''GET'',
           uri = ToString (priv_baseUrl (self s)) @ js ''/applications/'' @ js ''undefined'',
           qs = None\<rparr> s)
    \<and> subscribe pa s =
        apfst Inr (call_request
          \<lparr>http_method = js ''POST'',
           uri = ToString (priv_baseUrl (self s)) @ js ''/applications/'' @ js ''undefined''
                   @ js ''/subscription'',
           qs = Some [(''eventSource'',
                       Array_join (Array_concat [] (property (default_object pa) ''eventSource''))
                         (js '',''))]\<rparr> s)
    \<and> unsubscribe pa s =
        apfst Inr (call_request
          \<lparr>http_method = js ''DELETE'',
           uri = ToString (priv_baseUrl (self s)) @ js ''/applications/'' @ js ''undefined''
                   @ js ''/subscription'',
           qs = Some [(''eventSource'',
                       Array_join (Array_concat [] (property (default_object pa) ''eventSource''))
                         (js '',''))]\<rparr> s)"
proof -
  from assms have "property (default_object pa) ''applicationName'' = Undefined"
    by (simp add: property_def)
  then have app: "encodeURIComponent (property (default_object pa) ''applicationName'')
      = Inr (js ''undefined'')"
    by (simp add: encodeURIComponent_def Encode_undefined)
  from get_encoded [OF app, of s] subscribe_encoded [OF app, of s]
    unsubscribe_encoded [OF app, of s]
  show ?thesis by blast
qed

theorem absent_applicationName_sent_as_undefined_witness:
  "default_object None ''applicationName'' = None
   \<and> get None example_state =
        apfst Inr (call_request
          \<lparr>http_method = js ''GET'', uri = js ''http://pbx:8088/ari/applications/undefined'',
           qs = None\<rparr> example_state)
   \<and> subscribe (Some [''eventSource'' \<mapsto> Str (js ''bridge1'')]) example_state =
        apfst Inr (call_request
          \<lparr>http_method = js ''POST'',
           uri = js ''http://pbx:8088/ari/applications/undefined/subscription'',
           qs = Some [(''eventSource'', js ''bridge1'')]\<rparr> example_state)"
proof -
  let ?pa = "Some [''eventSource'' \<mapsto> Str (js ''bridge1'')]"
  have a: "default_object None ''applicationName'' = None"
    by (simp add: default_object_def)
  have b: "default_object ?pa ''applicationName'' = None"
    by (simp add: default_object_def)
  have es: "Array_join (Array_concat [] (property (default_object ?pa) ''eventSource'')) (js '','')
      = js ''bridge1''"
    by (simp add: default_object_def property_def Array_concat_def Array_join_single_string)
  have u2: "js ''http://pbx:8088/ari'' @ js ''/applications/'' @ js ''undefined''
      = js ''http://pbx:8088/ari/applications/undefined''"
    and u3: "js ''http://pbx:8088/ari'' @ js ''/applications/'' @ js ''undefined'' @ js ''/subscription''
      = js ''http://pbx:8088/ari/applications/undefined/subscription''"
    by (simp_all add: js_def)
  from absent_applicationName_sent_as_undefined [OF a, of example_state]
    absent_applicationName_sent_as_undefined [OF b, of example_state]
  show ?thesis
    using a by (simp add: es example_baseUrl u2 u3)
qed

text \<open>
  C9. When \<open>eventSource\<close> is absent or the empty sequence, \<open>subscribe\<close> and
  \<open>unsubscribe\<close> do not fail locally: for a well-formed application name they hand over
  the request with the query parameter \<open>eventSource\<close> set to the empty string.
\<close>

theorem empty_or_absent_eventSource_sent_empty:
  assumes "well_formed (ToString (property (default_object pa) ''applicationName''))"
    and "default_object pa ''eventSource'' = None
       \<or> default_object pa ''eventSource'' = Some (Arr [])"
  shows "\<exists>u. subscribe pa s =
        apfst Inr (call_request
          \<lparr>http_method = js ''POST'', uri = u, qs = Some [(''eventSource'', [])]\<rparr> s)
    \<and> unsubscribe pa s =
        apfst Inr (call_request
          \<lparr>http_method = js ''DELETE'', uri = u, qs = Some [(''eventSource'', [])]\<rparr> s)"
proof -
  from assms(1) obtain app
    where app: "encodeURIComponent (property (default_object pa) ''applicationName'') = Inr app"
    using encodeURIComponent_well_formed by blast
  from assms(2) have "property (default_object pa) ''eventSource'' = Undefined
      \<or> property (default_object pa) ''eventSource'' = Arr []"
    by (auto simp: property_def)
  then have "Array_join (Array_concat [] (property (default_object pa) ''eventSource'')) (js '','')
      = []"
    by (auto simp: Array_concat_def Array_join_def element_string_def)
  with subscribe_encoded [OF app, of s] unsubscribe_encoded [OF app, of s]
  show ?thesis by auto
qed

theorem empty_or_absent_eventSource_sent_empty_witness:
  "well_formed (ToString (property (default_object
      (Some [''applicationName'' \<mapsto> Str (js ''app1''), ''eventSource'' \<mapsto> Arr []]))
      ''applicationName''))
   \<and> default_object (Some [''applicationName'' \<mapsto> Str (js ''app1''), ''eventSource'' \<mapsto> Arr []])
        ''eventSource'' = Some (Arr [])
   \<and> default_object (Some [''applicationName'' \<mapsto> Str (js ''app1'')]) ''eventSource'' = None
   \<and> (\<exists>u. subscribe (Some [''applicationName'' \<mapsto> Str (js ''app1''), ''eventSource'' \<mapsto> Arr []])
          example_state =
        apfst Inr (call_request
          \<lparr>http_method = js ''POST'', uri = u, qs = Some [(''eventSource'', [])]\<rparr>
          example_state))
   \<and> (\<exists>u. unsubscribe (Some [''applicationName'' \<mapsto> Str (js ''app1'')]) example_state =
        apfst Inr (call_request
          \<lparr>http_method = js ''DELETE'', uri = u, qs = Some [(''eventSource'', [])]\<rparr>
          example_state))"
proof -
  let ?pa = "Some [''applicationName'' \<mapsto> Str (js ''app1''), ''eventSource'' \<mapsto> Arr []]"
  let ?pb = "Some [''applicationName'' \<mapsto> Str (js ''app1'')]"
  have wfa: "well_formed (ToString (property (default_object ?pa) ''applicationName''))"
    by (simp add: default_object_def property_def well_formed_app1)
  have wfb: "well_formed (ToString (property (default_object ?pb) ''applicationName''))"
    by (simp add: default_object_def property_def well_formed_app1)
  have ea: "default_object ?pa ''eventSource'' = Some (Arr [])"
    by (simp add: default_object_def)
  have eb: "default_object ?pb ''eventSource'' = None"
    by (simp add: default_object_def)
  from empty_or_absent_eventSource_sent_empty [OF wfa disjI2 [OF ea], of example_state]
    empty_or_absent_eventSource_sent_empty [OF wfb disjI1 [OF eb], of example_state]
  show ?thesis
    using wfa ea eb by blast
qed

text \<open>
  C10. Joining with commas is not injective: for every sequence of strings, the single string
  of its elements joined with commas gives exactly the same outcome of \<open>subscribe\<close> and of
  \<open>unsubscribe\<close> as the sequence itself, although the two inputs differ; so
  \<open>"ch1,ch2"\<close> and \<open>["ch1","ch2"]\<close> cannot be told apart.
\<close>

theorem joined_string_and_sequence_same_request:
  "subscribe (Some (params(''eventSource'' \<mapsto> Str (join_with (js '','') xs)))) s =
     subscribe (Some (params(''eventSource'' \<mapsto> Arr (map Str xs)))) s
   \<and> unsubscribe (Some (params(''eventSource'' \<mapsto> Str (join_with (js '','') xs)))) s =
     unsubscribe (Some (params(''eventSource'' \<mapsto> Arr (map Str xs)))) s
   \<and> Str (join_with (js '','') xs) \<noteq> Arr (map Str xs)"
proof -
  let ?one = "Some (params(''eventSource'' \<mapsto> Str (join_with (js '','') xs)))"
  let ?many = "Some (params(''eventSource'' \<mapsto> Arr (map Str xs)))"
  have name: "property (default_object ?one) ''applicationName''
      = property (default_object ?many) ''applicationName''"
    by (simp add: default_object_def property_def)
  have joined: "Array_join (Array_concat [] (property (default_object ?one) ''eventSource'')) (js '','')
      = Array_join (Array_concat [] (property (default_object ?many) ''eventSource'')) (js '','')"
    by (simp add: default_object_def property_def Array_concat_def Array_join_strings
        Array_join_single_string)
  show ?thesis
  proof (cases "encodeURIComponent (property (default_object ?one) ''applicationName'')")
    case (Inl e)
    then have "encodeURIComponent (property (default_object ?many) ''applicationName'') = Inl e"
      using name by simp
    with Inl show ?thesis
      by (simp add: subscribe_throws unsubscribe_throws)
  next
    case (Inr app)
    then have "encodeURIComponent (property (default_object ?many) ''applicationName'') = Inr app"
      using name by simp
    with Inr joined show ?thesis
      by (simp add: subscribe_encoded unsubscribe_encoded)
  qed
qed

theorem joined_string_and_sequence_same_request_witness:
  "subscribe (Some [''applicationName'' \<mapsto> Str (js ''app1''),
                    ''eventSource'' \<mapsto> Str (js ''ch1,ch2'')]) example_state =
     subscribe (Some [''applicationName'' \<mapsto> Str (js ''app1''),
                      ''eventSource'' \<mapsto> Arr [Str (js ''ch1''), Str (js ''ch2'')]]) example_state
   \<and> unsubscribe (Some [''applicationName'' \<mapsto> Str (js ''app1''),
                    ''eventSource'' \<mapsto> Str (js ''ch1,ch2'')]) example_state =
     unsubscribe (Some [''applicationName'' \<mapsto> Str (js ''app1''),
                      ''eventSource'' \<mapsto> Arr [Str (js ''ch1''), Str (js ''ch2'')]]) example_state"
proof -
  have j: "join_with (js '','') [js ''ch1'', js ''ch2''] = js ''ch1,ch2''"
    by (simp add: js_def)
  from joined_string_and_sequence_same_request
    [of "[''applicationName'' \<mapsto> Str (js ''app1'')]" "[js ''ch1'', js ''ch2'']" example_state]
  show ?thesis
    unfolding j by simp
qed

end
